theory Spec2Isabelle
  imports Main "HOL-Library.Word" "HOL-Library.Multiset" "HOL-Library.AList" "HOL-Library.Sublist"
begin

section \<open>The dynamic tree of zhash.go\<close>

text \<open>
  A value of Go's \<^verbatim>\<open>interface{}\<close> is a dynamic type together with a value of that type.
  The constructors below are the dynamic types that the type switches of zhash.go tell
  apart, plus \<open>OtherV\<close> for every other dynamic type (\<^verbatim>\<open>int32\<close>, \<^verbatim>\<open>[]string\<close>,
  \<^verbatim>\<open>time.Time\<close>, ...), identified by the name of the type.

  \<^item> \<open>NilV\<close> is the nil interface value, the result of reading a missing key.
  \<^item> \<open>IntV\<close> is Go's \<^verbatim>\<open>int\<close>, taken at its 64-bit width (amd64, arm64); \<open>Int64V\<close> is
    \<^verbatim>\<open>int64\<close>; \<open>Float64V\<close> is a \<^verbatim>\<open>float64\<close>, given by its IEEE 754 bit pattern.
  \<^item> \<open>SliceV\<close> is \<^verbatim>\<open>[]interface{}\<close>. No function of the file tells a nil slice from
    an empty one, so both are the empty list.
  \<^item> \<open>MapV\<close> is \<^verbatim>\<open>map[string]interface{}\<close> and \<open>ConfigV\<close> is the named type
    \<^verbatim>\<open>Config\<close>: two different dynamic types with the same representation. A map is
    \<open>None\<close> when it is the nil map, and otherwise \<open>Some kvs\<close> with \<open>kvs\<close> the list of
    its entries. The order of the list stands for the order in which \<^verbatim>\<open>range\<close> happens
    to visit the entries; a key is looked up at its first occurrence, and the entries
    of a Go map have distinct keys.

  The tree is a value: a map is owned by the one entry that holds it. Maps shared
  between two entries, and cyclic maps, are outside this model.
\<close>

datatype node =
    is_NilV: NilV
  | is_StringV: StringV (the_string: string)
  | is_BoolV: BoolV bool
  | is_IntV: IntV "64 word"
  | is_Int64V: Int64V "64 word"
  | is_Float64V: Float64V "64 word"
  | is_SliceV: SliceV "node list"
  | is_MapV: MapV "(string \<times> node) list option"
  | is_ConfigV: ConfigV "(string \<times> node) list option"
  | is_OtherV: OtherV string

type_synonym gomap = "(string \<times> node) list option"

text \<open>\<^verbatim>\<open>type Config map[string]interface{}\<close>\<close>

type_synonym Config = gomap

text \<open>\<^verbatim>\<open>const REQUIRED = "[REQUIRED]"\<close>\<close>

definition REQUIRED :: string where
  "REQUIRED = ''[REQUIRED]''"

text \<open>\<^verbatim>\<open>func NewConfig() Config { return Config{} }\<close>\<close>

definition NewConfig :: Config where
  "NewConfig = Some []"

text \<open>
  The values of Go's \<^verbatim>\<open>error\<close> that the file produces: \<^verbatim>\<open>NotFoundError{Path}\<close>,
  \<^verbatim>\<open>RequiredError{Path}\<close>, and the result of \<^verbatim>\<open>errors.New(msg)\<close>, which holds nothing
  but its message. A nil error is \<open>None\<close> of \<open>error option\<close>.
\<close>

datatype error =
    NotFoundError "string list"
  | RequiredError string
  | ErrorString string

text \<open>The run-time panics of the Go statements used in the file.\<close>

datatype panic =
    NilMapAssign
  | IndexOutOfRange

subsection \<open>Go's map operations\<close>

text \<open>\<^verbatim>\<open>range m\<close>: the entries of a map; a nil map has none.\<close>

definition entries :: "gomap \<Rightarrow> (string \<times> node) list" where
  "entries m = (case m of None \<Rightarrow> [] | Some kvs \<Rightarrow> kvs)"

text \<open>
  \<^verbatim>\<open>m[k]\<close> as an expression: the value stored under \<open>k\<close>, and the zero value of
  \<^verbatim>\<open>interface{}\<close>, nil, when there is no such key or the map is nil.
\<close>

definition index :: "gomap \<Rightarrow> string \<Rightarrow> node" where
  "index m k = (case map_of (entries m) k of None \<Rightarrow> NilV | Some v \<Rightarrow> v)"

text \<open>
  \<^verbatim>\<open>m[k] = v\<close>: panics (assignment to entry in nil map) on the nil map, and otherwise
  replaces the value of \<open>k\<close> or adds the entry.
\<close>

definition assign :: "gomap \<Rightarrow> string \<Rightarrow> node \<Rightarrow> panic + gomap" where
  "assign m k v = (case m of None \<Rightarrow> Inl NilMapAssign | Some kvs \<Rightarrow> Inr (Some (AList.update k v kvs)))"

text \<open>
  The Go code mutates the map that \<^verbatim>\<open>ptr\<close> refers to, and the entry of the parent map
  that holds this map sees the change. In the model the changed map is put back into
  the parent's entry, under the dynamic type that the entry had.
\<close>

definition put_back :: "gomap \<Rightarrow> string \<Rightarrow> node \<Rightarrow> gomap" where
  "put_back m k v = map_option (AList.update k v) m"

subsection \<open>Set and GetPath\<close>

text \<open>
  \<^verbatim>\<open>func (c Config) Set(value interface{}, path ...string)\<close>, lines 62 to 81. The loop
  state is \<open>key\<close> and \<open>ptr\<close>; \<^verbatim>\<open>i < len(path)-1\<close> holds when elements remain after
  \<open>p\<close>. The result is the Config after the call, or the panic that ended it.
\<close>

fun Set_loop :: "node \<Rightarrow> string \<Rightarrow> string list \<Rightarrow> gomap \<Rightarrow> panic + gomap" where
  "Set_loop val key [] ptr = assign ptr key val"
| "Set_loop val key (p # rest) ptr =
     (if rest \<noteq> [] then
        (case index ptr p of
           MapV node \<Rightarrow>
             (case Set_loop val p rest node of
                Inl e \<Rightarrow> Inl e
              | Inr node' \<Rightarrow> Inr (put_back ptr p (MapV node')))
         | ConfigV node \<Rightarrow>
             (case Set_loop val p rest node of
                Inl e \<Rightarrow> Inl e
              | Inr node' \<Rightarrow> Inr (put_back ptr p (ConfigV node')))
         | _ \<Rightarrow>
             (case assign ptr p (MapV (Some [])) of
                Inl e \<Rightarrow> Inl e
              | Inr ptr' \<Rightarrow>
                  (case Set_loop val p rest (Some []) of
                     Inl e \<Rightarrow> Inl e
                   | Inr node' \<Rightarrow> Inr (put_back ptr' p (MapV node')))))
      else Set_loop val p rest ptr)"

definition Set :: "Config \<Rightarrow> node \<Rightarrow> string list \<Rightarrow> panic + Config" where
  "Set c val path = Set_loop val '''' path c"

text \<open>\<^verbatim>\<open>func (c Config) GetPath(path ...string) interface{}\<close>, lines 83 to 99.\<close>

fun GetPath :: "Config \<Rightarrow> string list \<Rightarrow> node" where
  "GetPath ptr [] = NilV"
| "GetPath ptr (p # rest) =
     (if rest = [] then index ptr p
      else (case index ptr p of
              MapV node \<Rightarrow> GetPath node rest
            | _ \<Rightarrow> NilV))"

subsection \<open>Typed accessors\<close>

text \<open>\<^verbatim>\<open>strings.Join(elems, sep)\<close>\<close>

fun Join :: "string list \<Rightarrow> string \<Rightarrow> string" where
  "Join [] sep = ''''"
| "Join [x] sep = x"
| "Join (x # xs) sep = x @ sep @ Join xs sep"

text \<open>
  Every accessor returns the pair that the Go function returns: the value and the
  error, \<open>None\<close> for a nil error.
\<close>

definition GetMap :: "Config \<Rightarrow> string list \<Rightarrow> gomap \<times> error option" where
  "GetMap c path =
     (let m = GetPath c path in
      if m = NilV then (Some [], Some (NotFoundError path))
      else (case m of
              MapV val \<Rightarrow> (val, None)
            | _ \<Rightarrow> (Some [], Some (ErrorString (''Error converting '' @ Join path ''.'' @ '' to map'')))))"

definition GetString :: "Config \<Rightarrow> string list \<Rightarrow> string \<times> error option" where
  "GetString c path =
     (let m = GetPath c path in
      if m = NilV then ('''', Some (NotFoundError path))
      else (case m of
              StringV val \<Rightarrow> (val, None)
            | _ \<Rightarrow> ('''', Some (ErrorString (''Error converting '' @ Join path ''.'' @ '' to string'')))))"

definition GetSlice :: "Config \<Rightarrow> string list \<Rightarrow> node list \<times> error option" where
  "GetSlice c path =
     (let m = GetPath c path in
      if m = NilV then ([], Some (NotFoundError path))
      else (case m of
              SliceV val \<Rightarrow> (val, None)
            | _ \<Rightarrow> ([], Some (ErrorString (''Error converting '' @ Join path ''.'' @ '' to slice'')))))"

text \<open>The inner loop of \<^verbatim>\<open>GetStringSlice\<close>, lines 152 to 163, with \<open>sl\<close> as accumulator.\<close>

fun GetStringSlice_loop :: "string list \<Rightarrow> node list \<Rightarrow> string list \<Rightarrow> string list \<times> error option" where
  "GetStringSlice_loop path [] sl = (sl, None)"
| "GetStringSlice_loop path (v # val) sl =
     (case v of
        StringV s \<Rightarrow> GetStringSlice_loop path val (sl @ [s])
      | _ \<Rightarrow> ([], Some (ErrorString (''Error converting '' @ Join path ''.'' @ '' to string slice''))))"

definition GetStringSlice :: "Config \<Rightarrow> string list \<Rightarrow> string list \<times> error option" where
  "GetStringSlice c path =
     (let m = GetPath c path in
      if m = NilV then ([], Some (NotFoundError path))
      else (case m of
              SliceV val \<Rightarrow> GetStringSlice_loop path val []
            | _ \<Rightarrow> ([], Some (ErrorString (''Error converting '' @ Join path ''.'' @ '' to slice'')))))"

definition GetBool :: "Config \<Rightarrow> string list \<Rightarrow> bool \<times> error option" where
  "GetBool c path =
     (let m = GetPath c path in
      if m = NilV then (False, Some (NotFoundError path))
      else (case m of
              BoolV val \<Rightarrow> (val, None)
            | _ \<Rightarrow> (False, Some (ErrorString (''Error converting '' @ Join path ''.'' @ '' to bool'')))))"

text \<open>
  \<^verbatim>\<open>int64(val)\<close> on an \<^verbatim>\<open>int\<close> is the signed conversion \<open>scast\<close>, which keeps the value.
\<close>

definition GetInt :: "Config \<Rightarrow> string list \<Rightarrow> 64 word \<times> error option" where
  "GetInt c path =
     (let m = GetPath c path in
      if m = NilV then (0, Some (NotFoundError path))
      else (case m of
              IntV val \<Rightarrow> (scast val, None)
            | Int64V val \<Rightarrow> (val, None)
            | _ \<Rightarrow> (0, Some (ErrorString (''Error converting '' @ Join path ''.'' @ '' to int'')))))"

text \<open>
  Go's built-in conversion \<^verbatim>\<open>float64(x)\<close> of an integer rounds to the nearest
  \<^verbatim>\<open>float64\<close>. It belongs to the language, not to the file, and is the parameter
  \<open>float64\<close> here: from the integer's value to the bit pattern of the result. The zero
  value \<^verbatim>\<open>0\<close> of \<^verbatim>\<open>float64\<close> has the bit pattern 0.
\<close>

definition GetFloat :: "(int \<Rightarrow> 64 word) \<Rightarrow> Config \<Rightarrow> string list \<Rightarrow> 64 word \<times> error option" where
  "GetFloat float64 c path =
     (let m = GetPath c path in
      if m = NilV then (0, Some (NotFoundError path))
      else (case m of
              Float64V val \<Rightarrow> (val, None)
            | IntV val \<Rightarrow> (float64 (sint val), None)
            | Int64V val \<Rightarrow> (float64 (sint val), None)
            | _ \<Rightarrow> (0, Some (ErrorString (''Error converting '' @ Join path ''.'' @ '' to float'')))))"

subsection \<open>Validate\<close>

text \<open>
  \<^verbatim>\<open>func (c Config) Validate() (errs []error)\<close>, lines 219 to 248. The work list is
  the pair of slices \<open>nodes\<close> and \<open>paths\<close>; an element is taken from the end and the
  children of a map are appended at the end. \<^verbatim>\<open>paths[len(paths)-1]\<close> panics on an
  empty slice, which is a branch of the model. The type switch has the two cases
  \<^verbatim>\<open>map[string]interface{}\<close> and \<^verbatim>\<open>string\<close>, and no other.
\<close>

function Validate_loop :: "node list \<Rightarrow> string list \<Rightarrow> error list \<Rightarrow> panic + error list" where
  "Validate_loop nodes paths errs =
     (if nodes = [] then Inr errs
      else if paths = [] then Inl IndexOutOfRange
      else
        (let node = last nodes; path = last paths;
             nodes = butlast nodes; paths = butlast paths
         in case node of
              MapV inner \<Rightarrow>
                Validate_loop (nodes @ map snd (entries inner))
                              (paths @ map (\<lambda>(k, n). path @ ''.'' @ k) (entries inner)) errs
            | StringV inner \<Rightarrow>
                Validate_loop nodes paths
                  (if inner = REQUIRED then errs @ [RequiredError path] else errs)
            | _ \<Rightarrow> Validate_loop nodes paths errs))"
  by pat_completeness auto
termination
proof -
  have pop: "(\<Sum>n\<leftarrow>nodes. Suc (size n)) =
      (\<Sum>n\<leftarrow>butlast nodes. Suc (size n)) + Suc (size (last nodes))"
    if "nodes \<noteq> []" for nodes :: "node list"
    using that by (induction nodes rule: rev_induct) simp_all
  have children: "(\<Sum>kv\<leftarrow>entries m. Suc (size (snd kv))) < size (MapV m)" for m
  proof (cases m)
    case None
    then show ?thesis by (simp add: entries_def)
  next
    case (Some kvs)
    have "(\<Sum>kv\<leftarrow>kvs. Suc (size (snd kv))) < size (MapV (Some kvs))"
      by (induction kvs) auto
    with Some show ?thesis by (simp add: entries_def)
  qed
  show ?thesis
  proof (relation "measure (\<lambda>(nodes, paths, errs). \<Sum>n\<leftarrow>nodes. Suc (size n))", goal_cases)
    case 1
    show ?case by simp
  next
    case (9 nodes paths errs node path ns ps inner)
    then show ?case
      using children [of inner] by (simp add: pop comp_def case_prod_unfold)
  qed (simp_all add: pop)
qed

declare Validate_loop.simps [simp del]

definition Validate :: "Config \<Rightarrow> panic + error list" where
  "Validate c = Validate_loop (map snd (entries c)) (map fst (entries c)) []"

section \<open>Notions used to state the properties\<close>

text \<open>
  The definitions of this section are not code of zhash.go. They name the inputs and
  the observations that the properties below speak about.
\<close>

text \<open>
  The walk of \<open>Set\<close> along \<open>path\<close> reaches a nil map. \<open>Set\<close> assigns into every map
  that it reaches or creates, so these are the calls that panic.
\<close>

fun nil_on_path :: "gomap \<Rightarrow> string list \<Rightarrow> bool" where
  "nil_on_path ptr [] = (ptr = None)"
| "nil_on_path ptr (p # rest) =
     (if rest \<noteq> [] then
        (case index ptr p of
           MapV node \<Rightarrow> nil_on_path node rest
         | ConfigV node \<Rightarrow> nil_on_path node rest
         | _ \<Rightarrow> ptr = None)
      else nil_on_path ptr rest)"

text \<open>
  The walk of \<open>Set\<close> along \<open>path\<close> descends into a value of dynamic type \<^verbatim>\<open>Config\<close>
  at a segment that is not the last one.
\<close>

fun Config_on_path :: "gomap \<Rightarrow> string list \<Rightarrow> bool" where
  "Config_on_path ptr [] = False"
| "Config_on_path ptr (p # rest) =
     (rest \<noteq> [] \<and>
      (case index ptr p of
         MapV node \<Rightarrow> Config_on_path node rest
       | ConfigV node \<Rightarrow> True
       | _ \<Rightarrow> False))"

text \<open>
  The map entry that \<open>Set\<close> writes for \<open>path\<close>, read without changing the tree: \<open>None\<close>
  when the map has no such key, \<open>Some v\<close> when the key is there with value \<open>v\<close>,
  also when \<open>v\<close> is nil. It follows the walk of \<open>Set\<close>, through \<^verbatim>\<open>Config\<close> values
  as well, and starts with the key \<^verbatim>\<open>""\<close> as \<open>Set\<close> does.
\<close>

fun entry_loop :: "string \<Rightarrow> string list \<Rightarrow> gomap \<Rightarrow> node option" where
  "entry_loop key [] ptr = map_of (entries ptr) key"
| "entry_loop key (p # rest) ptr =
     (if rest \<noteq> [] then
        (case index ptr p of
           MapV node \<Rightarrow> entry_loop p rest node
         | ConfigV node \<Rightarrow> entry_loop p rest node
         | _ \<Rightarrow> None)
      else entry_loop p rest ptr)"

definition entry_at :: "Config \<Rightarrow> string list \<Rightarrow> node option" where
  "entry_at c path = entry_loop '''' path c"

text \<open>
  The sentinels that the work list of \<open>Validate\<close> finds, by recursion over the tree:
  the dotted paths of the strings equal to the sentinel that are reached from a node
  through values of dynamic type \<^verbatim>\<open>map[string]interface{}\<close> only, one path for each such
  string. A top-level key is its own path, and a child under the key \<open>k\<close> of a map at
  \<open>path\<close> has the path \<open>path.k\<close>. Sequences, values of the named type \<^verbatim>\<open>Config\<close> and all
  other values have none.
\<close>

function required_at :: "string \<Rightarrow> node \<Rightarrow> string list" where
  "required_at path (StringV s) = (if s = REQUIRED then [path] else [])"
| "required_at path (MapV m) =
     concat (map (\<lambda>(k, n). required_at (path @ ''.'' @ k) n) (entries m))"
| "required_at path NilV = []"
| "required_at path (BoolV b) = []"
| "required_at path (IntV i) = []"
| "required_at path (Int64V i) = []"
| "required_at path (Float64V f) = []"
| "required_at path (SliceV xs) = []"
| "required_at path (ConfigV m) = []"
| "required_at path (OtherV t) = []"
  by pat_completeness auto
termination
proof -
  have child: "size n < size (MapV m)" if "(k, n) \<in> set (entries m)" for k n m
  proof (cases m)
    case None
    with that show ?thesis by (simp add: entries_def)
  next
    case (Some kvs)
    have "(k, n) \<in> set kvs \<Longrightarrow> size n < size (MapV (Some kvs))"
      by (induction kvs) auto
    with that Some show ?thesis by (simp add: entries_def)
  qed
  show ?thesis
    by (relation "measure (\<lambda>(path, n). size n)") (auto dest: child)
qed

definition sentinel_paths :: "Config \<Rightarrow> string list" where
  "sentinel_paths c = concat (map (\<lambda>(k, n). required_at k n) (entries c))"

text \<open>The sentinel paths still to be reported by a work list.\<close>

definition pending :: "node list \<Rightarrow> string list \<Rightarrow> string list" where
  "pending nodes paths = concat (map (\<lambda>(n, p). required_at p n) (zip nodes paths))"

section \<open>Properties of the map operations\<close>

lemma index_None [simp]: "index None k = NilV"
  by (simp add: index_def entries_def)

lemma index_empty [simp]: "index (Some []) k = NilV"
  by (simp add: index_def entries_def)

lemma assign_Some [simp]: "assign (Some kvs) k v = Inr (Some (AList.update k v kvs))"
  by (simp add: assign_def)

lemma assign_None [simp]: "assign None k v = Inl NilMapAssign"
  by (simp add: assign_def)

lemma put_back_Some [simp]: "put_back (Some kvs) k v = Some (AList.update k v kvs)"
  by (simp add: put_back_def)

lemma index_update [simp]:
  "index (Some (AList.update k v kvs)) k' = (if k' = k then v else index (Some kvs) k')"
  by (simp add: index_def entries_def update_conv')

lemma map_of_entries_update [simp]:
  "map_of (entries (Some (AList.update k v kvs))) k' =
     (if k' = k then Some v else map_of (entries (Some kvs)) k')"
  by (simp add: entries_def update_conv')

lemma nil_on_path_empty [simp]: "\<not> nil_on_path (Some []) path"
  by (induction path) auto

lemma Config_on_path_empty [simp]: "\<not> Config_on_path (Some []) path"
  by (cases path) auto

section \<open>Set followed by GetPath\<close>

lemma Set_loop_returns:
  "\<not> nil_on_path ptr path \<Longrightarrow> \<exists>ptr'. Set_loop val key path ptr = Inr ptr'"
proof (induction path arbitrary: ptr key)
  case Nil
  then show ?case by auto
next
  case (Cons p rest)
  show ?case
  proof (cases "rest = []")
    case True
    with Cons.prems show ?thesis by auto
  next
    case False
    from Cons.prems False obtain kvs where ptr: "ptr = Some kvs"
      by (cases ptr) (auto split: node.splits)
    show ?thesis
    proof (cases "index ptr p")
      case (MapV node)
      with Cons.prems False have "\<not> nil_on_path node rest" by simp
      from Cons.IH [OF this, of p] show ?thesis
        using False MapV ptr by auto
    next
      case (ConfigV node)
      with Cons.prems False have "\<not> nil_on_path node rest" by simp
      from Cons.IH [OF this, of p] show ?thesis
        using False ConfigV ptr by auto
    qed (use Cons.IH [of "Some []" p] False ptr in auto)
  qed
qed

lemma Set_loop_panics:
  "nil_on_path ptr path \<Longrightarrow> Set_loop val key path ptr = Inl NilMapAssign"
proof (induction path arbitrary: ptr key)
  case Nil
  then show ?case by auto
next
  case (Cons p rest)
  then show ?case
    by (cases "index ptr p") (auto split: if_splits)
qed

lemma GetPath_Set_loop:
  "Set_loop val key path ptr = Inr ptr' \<Longrightarrow> path \<noteq> [] \<Longrightarrow>
   GetPath ptr' path = (if Config_on_path ptr path then NilV else val)"
proof (induction path arbitrary: ptr key ptr')
  case Nil
  then show ?case by simp
next
  case (Cons p rest)
  show ?case
  proof (cases "rest = []")
    case True
    with Cons.prems show ?thesis by (cases ptr) auto
  next
    case False
    from Cons.prems False obtain kvs where ptr: "ptr = Some kvs"
      by (cases ptr) (auto split: node.splits)
    show ?thesis
    proof (cases "index ptr p")
      case (MapV node)
      with Cons.prems False ptr obtain node' where
        run: "Set_loop val p rest node = Inr node'" and
        ptr': "ptr' = Some (AList.update p (MapV node') kvs)"
        by (auto split: sum.splits)
      from Cons.IH [OF run False] show ?thesis
        using False MapV ptr' by simp
    next
      case (ConfigV node)
      with Cons.prems False ptr obtain node' where
        "Set_loop val p rest node = Inr node'" and
        "ptr' = Some (AList.update p (ConfigV node') kvs)"
        by (auto split: sum.splits)
      then show ?thesis
        using False ConfigV by simp
    qed (use Cons.prems Cons.IH [of p "Some []", OF _ False] False ptr
         in \<open>auto split: sum.splits\<close>)
  qed
qed

lemma entry_Set_loop:
  "Set_loop val key path ptr = Inr ptr' \<Longrightarrow> entry_loop key path ptr' = Some val"
proof (induction path arbitrary: ptr key ptr')
  case Nil
  then show ?case by (cases ptr) auto
next
  case (Cons p rest)
  show ?case
  proof (cases "rest = []")
    case True
    with Cons.prems show ?thesis by (cases ptr) auto
  next
    case False
    from Cons.prems False obtain kvs where ptr: "ptr = Some kvs"
      by (cases ptr) (auto split: node.splits)
    show ?thesis
      using Cons.prems Cons.IH False ptr
      by (cases "index ptr p") (auto split: sum.splits)
  qed
qed

lemma GetPath_Set_NilV:
  assumes "Set c NilV path = Inr c'"
  shows "GetPath c' path = NilV"
proof (cases "path = []")
  case True
  then show ?thesis by simp
next
  case False
  with assms show ?thesis
    unfolding Set_def by (simp add: GetPath_Set_loop)
qed

lemma Set_panics_iff: "Set c val path = Inl NilMapAssign \<longleftrightarrow> nil_on_path c path"
proof
  assume panics: "Set c val path = Inl NilMapAssign"
  show "nil_on_path c path"
  proof (rule ccontr)
    assume "\<not> nil_on_path c path"
    from Set_loop_returns [OF this, of val "''''"] panics show False
      by (simp add: Set_def)
  qed
next
  assume "nil_on_path c path"
  then show "Set c val path = Inl NilMapAssign"
    unfolding Set_def by (rule Set_loop_panics)
qed

lemma GetPath_after_Set:
  assumes "Set c val path = Inr c'"
  shows "GetPath c' path = (if path = [] \<or> Config_on_path c path then NilV else val)"
proof (cases "path = []")
  case True
  then show ?thesis by simp
next
  case False
  with assms show ?thesis
    unfolding Set_def by (simp add: GetPath_Set_loop)
qed

lemma GetPath_empty [simp]: "GetPath (Some []) q = NilV"
  by (cases q) auto

text \<open>
  A write leaves every other path as it was: \<open>GetPath\<close> on a path \<open>q\<close> returns the same
  value before and after \<open>Set\<close> on a path \<open>p\<close>, when neither path starts with the other.
\<close>

lemma GetPath_Set_loop_frame:
  "Set_loop val key p ptr = Inr ptr' \<Longrightarrow> \<not> prefix p q \<Longrightarrow> \<not> prefix q p \<Longrightarrow>
   GetPath ptr' q = GetPath ptr q"
proof (induction p arbitrary: q ptr key ptr')
  case Nil
  then show ?case by simp
next
  case (Cons a rest)
  from Cons.prems obtain b qrest where q: "q = b # qrest"
    by (cases q) auto
  from Cons.prems obtain kvs where ptr: "ptr = Some kvs"
    by (cases ptr) (auto split: node.splits if_splits)
  show ?case
  proof (cases "a = b")
    case False
    from Cons.prems ptr have "index ptr' b = index ptr b"
      using False by (cases "index ptr a") (auto split: if_splits sum.splits)
    then show ?thesis by (simp add: q)
  next
    case True
    with Cons.prems q have rest: "rest \<noteq> []" and qrest: "qrest \<noteq> []"
      and np: "\<not> prefix rest qrest" and nq: "\<not> prefix qrest rest"
      by auto
    show ?thesis
    proof (cases "index ptr a")
      case (MapV node)
      with Cons.prems rest ptr obtain node' where
        run: "Set_loop val a rest node = Inr node'" and
        ptr': "ptr' = Some (AList.update a (MapV node') kvs)"
        by (auto split: sum.splits)
      from Cons.IH [OF run np nq] show ?thesis
        using MapV ptr' qrest True by (simp add: q)
    next
      case (ConfigV node)
      with Cons.prems rest ptr obtain node' where
        "ptr' = Some (AList.update a (ConfigV node') kvs)"
        by (auto split: sum.splits)
      then show ?thesis
        using ConfigV qrest True by (simp add: q)
    qed (use Cons.prems Cons.IH [of a "Some []", OF _ np nq] rest qrest ptr True q
         in \<open>auto split: sum.splits\<close>)
  qed
qed

lemma GetPath_Set_frame:
  "Set c val p = Inr c' \<Longrightarrow> \<not> prefix p q \<Longrightarrow> \<not> prefix q p \<Longrightarrow> GetPath c' q = GetPath c q"
  unfolding Set_def by (rule GetPath_Set_loop_frame)

lemma Set_loop_no_nil_after:
  "Set_loop val key p ptr = Inr ptr' \<Longrightarrow> butlast q = butlast p \<Longrightarrow> \<not> nil_on_path ptr' q"
proof (induction p arbitrary: q ptr key ptr')
  case Nil
  then have "q = [] \<or> (\<exists>b. q = [b])"
    by (cases q) (auto split: if_splits)
  with Nil.prems show ?case
    by (cases ptr) auto
next
  case (Cons a rest)
  from Cons.prems obtain kvs where ptr: "ptr = Some kvs"
    by (cases ptr) (auto split: node.splits if_splits)
  show ?case
  proof (cases "rest = []")
    case True
    with Cons.prems have "q = [] \<or> (\<exists>b. q = [b])"
      by (cases q) (auto split: if_splits)
    with Cons.prems True ptr show ?thesis by auto
  next
    case False
    with Cons.prems obtain qrest where q: "q = a # qrest" and qrest: "qrest \<noteq> []"
      and bl: "butlast qrest = butlast rest"
      by (cases q) (auto split: if_splits)
    show ?thesis
      using Cons.prems Cons.IH [OF _ bl] False ptr qrest
      by (cases "index ptr a") (auto simp: q split: sum.splits)
  qed
qed

lemma Set_loop_no_Config_after:
  "Set_loop val key p ptr = Inr ptr' \<Longrightarrow> \<not> Config_on_path ptr p \<Longrightarrow>
   butlast q = butlast p \<Longrightarrow> \<not> Config_on_path ptr' q"
proof (induction p arbitrary: q ptr key ptr')
  case Nil
  then have "q = [] \<or> (\<exists>b. q = [b])"
    by (cases q) (auto split: if_splits)
  then show ?case by auto
next
  case (Cons a rest)
  from Cons.prems obtain kvs where ptr: "ptr = Some kvs"
    by (cases ptr) (auto split: node.splits if_splits)
  show ?case
  proof (cases "rest = []")
    case True
    with Cons.prems have "q = [] \<or> (\<exists>b. q = [b])"
      by (cases q) (auto split: if_splits)
    then show ?thesis by auto
  next
    case False
    with Cons.prems obtain qrest where q: "q = a # qrest" and qrest: "qrest \<noteq> []"
      and bl: "butlast qrest = butlast rest"
      by (cases q) (auto split: if_splits)
    show ?thesis
      using Cons.prems Cons.IH [OF _ _ bl] False ptr qrest
      by (cases "index ptr a") (auto simp: q split: sum.splits)
  qed
qed

text \<open>
  Two writes under a shared prefix \<open>r\<close>, with different last keys \<open>x\<close> and \<open>y\<close>: when
  the walk of \<open>r.x\<close> reaches no nil map and descends into no value of dynamic type
  \<^verbatim>\<open>Config\<close>, both calls return and both values are read back.
\<close>

lemma two_writes_shared_prefix:
  assumes "\<not> nil_on_path c (r @ [x])" and "\<not> Config_on_path c (r @ [x])" and "x \<noteq> y"
  shows "\<exists>c1 c2. Set c v (r @ [x]) = Inr c1 \<and> Set c1 w (r @ [y]) = Inr c2 \<and>
           GetPath c2 (r @ [x]) = v \<and> GetPath c2 (r @ [y]) = w"
proof -
  from Set_loop_returns [OF assms(1)] obtain c1 where s1: "Set c v (r @ [x]) = Inr c1"
    unfolding Set_def by blast
  have g1: "GetPath c1 (r @ [x]) = v"
    using GetPath_after_Set [OF s1] assms(2) by simp
  have "\<not> nil_on_path c1 (r @ [y])"
    using s1 unfolding Set_def by (rule Set_loop_no_nil_after) simp
  from Set_loop_returns [OF this] obtain c2 where s2: "Set c1 w (r @ [y]) = Inr c2"
    unfolding Set_def by blast
  have "\<not> Config_on_path c1 (r @ [y])"
    using s1 assms(2) unfolding Set_def by (rule Set_loop_no_Config_after) simp
  then have g2: "GetPath c2 (r @ [y]) = w"
    using GetPath_after_Set [OF s2] by simp
  have "GetPath c2 (r @ [x]) = GetPath c1 (r @ [x])"
    using s2 by (rule GetPath_Set_frame) (use assms(3) in auto)
  with s1 s2 g1 g2 show ?thesis by simp
qed

section \<open>Typed accessors on an absent value\<close>

lemma GetMap_absent: "GetPath c path = NilV \<Longrightarrow> GetMap c path = (Some [], Some (NotFoundError path))"
  by (simp add: GetMap_def)

lemma GetString_absent: "GetPath c path = NilV \<Longrightarrow> GetString c path = ('''', Some (NotFoundError path))"
  by (simp add: GetString_def)

lemma GetSlice_absent: "GetPath c path = NilV \<Longrightarrow> GetSlice c path = ([], Some (NotFoundError path))"
  by (simp add: GetSlice_def)

lemma GetStringSlice_absent:
  "GetPath c path = NilV \<Longrightarrow> GetStringSlice c path = ([], Some (NotFoundError path))"
  by (simp add: GetStringSlice_def)

lemma GetBool_absent: "GetPath c path = NilV \<Longrightarrow> GetBool c path = (False, Some (NotFoundError path))"
  by (simp add: GetBool_def)

lemma GetInt_absent: "GetPath c path = NilV \<Longrightarrow> GetInt c path = (0, Some (NotFoundError path))"
  by (simp add: GetInt_def)

lemma GetFloat_absent:
  "GetPath c path = NilV \<Longrightarrow> GetFloat conv c path = (0, Some (NotFoundError path))"
  by (simp add: GetFloat_def)

lemma GetStringSlice_loop_eq:
  "GetStringSlice_loop path val sl =
     (if list_all is_StringV val then (sl @ map the_string val, None)
      else ([], Some (ErrorString (''Error converting '' @ Join path ''.'' @ '' to string slice''))))"
  by (induction val arbitrary: sl) (auto split: node.splits)

section \<open>Write then read\<close>

text \<open>
  Claim C1 as stated, for all paths, fails on the empty path: \<open>Set\<close> on the empty
  Config with the value \<open>1\<close> and no path segment stores the value under the key \<^verbatim>\<open>""\<close>,
  and \<open>GetPath\<close> with no path segment on the result does not return \<open>1\<close>.
\<close>

theorem Set_empty_path_not_read_back:
  "Set NewConfig (IntV 1) [] = Inr (Some [('''', IntV 1)]) \<and>
   GetPath (Some [('''', IntV 1)]) [] \<noteq> IntV 1"
  by (simp add: Set_def NewConfig_def)

text \<open>
  Claim C1, amended: for every non-empty path \<open>path\<close> and every value \<open>val\<close> (scalar,
  mapping or sequence), on a Config that is a tree, where the walk of \<open>path\<close> reaches no
  nil map and descends into no value of dynamic type \<^verbatim>\<open>Config\<close>, the call
  \<open>Set(val, path)\<close> returns and \<open>GetPath(path)\<close> on the Config it leaves returns exactly
  \<open>val\<close>. A Config is a tree when no map is held by two entries, no map holds itself,
  and \<open>val\<close> shares no map with the Config: these are the Configs that the type \<open>node\<close>
  describes, and the theorem is about them and no others. The statement covers a path
  through a key that held a scalar, which is replaced by a fresh mapping, and a path
  through a key that held an unrelated mapping, which is descended into.
\<close>

theorem Set_then_GetPath:
  assumes "path \<noteq> []" and "\<not> nil_on_path c path" and "\<not> Config_on_path c path"
  shows "\<exists>c'. Set c val path = Inr c' \<and> GetPath c' path = val"
proof -
  from Set_loop_returns [OF assms(2)] obtain c' where run: "Set c val path = Inr c'"
    unfolding Set_def by blast
  then have "GetPath c' path = val"
    unfolding Set_def using assms(1,3) by (simp add: GetPath_Set_loop)
  with run show ?thesis by blast
qed

text \<open>
  C1 at a concrete input: the path \<open>a.b.c\<close> goes through the key \<open>a\<close>, which holds the
  scalar \<open>5\<close>, next to an unrelated mapping under \<open>m\<close>; the value written is a sequence.
\<close>

theorem Set_then_GetPath_witness:
  "[''a'', ''b'', ''c''] \<noteq> [] \<and>
   \<not> nil_on_path (Some [(''a'', IntV 5), (''m'', MapV (Some [(''x'', BoolV True)]))])
       [''a'', ''b'', ''c''] \<and>
   \<not> Config_on_path (Some [(''a'', IntV 5), (''m'', MapV (Some [(''x'', BoolV True)]))])
       [''a'', ''b'', ''c''] \<and>
   (\<exists>c'. Set (Some [(''a'', IntV 5), (''m'', MapV (Some [(''x'', BoolV True)]))])
            (SliceV [StringV ''v'']) [''a'', ''b'', ''c''] = Inr c' \<and>
         GetPath c' [''a'', ''b'', ''c''] = SliceV [StringV ''v''])"
  using Set_then_GetPath [of "[''a'', ''b'', ''c'']"
      "Some [(''a'', IntV 5), (''m'', MapV (Some [(''x'', BoolV True)]))]" "SliceV [StringV ''v'']"]
  by (simp add: index_def entries_def)

section \<open>The walks of Set and of GetPath\<close>

text \<open>
  Claim C2 says that \<open>Set\<close> descends at a non-final segment exactly where \<open>GetPath\<close>
  does. The code at the Config \<^verbatim>\<open>{"a": Config{"b": 7}}\<close> and the path \<open>a.b\<close>: \<open>GetPath\<close>
  does not descend into the value under \<open>a\<close> and returns nil; \<open>Set\<close> descends into that
  same value and writes \<open>b\<close> inside it, without replacing it by a fresh mapping; and
  \<open>GetPath\<close> on the result is still nil.
\<close>

theorem Set_descends_into_Config_GetPath_does_not:
  "GetPath (Some [(''a'', ConfigV (Some [(''b'', IntV 7)]))]) [''a'', ''b''] = NilV \<and>
   Set (Some [(''a'', ConfigV (Some [(''b'', IntV 7)]))]) (IntV 1) [''a'', ''b''] =
     Inr (Some [(''a'', ConfigV (Some [(''b'', IntV 1)]))]) \<and>
   GetPath (Some [(''a'', ConfigV (Some [(''b'', IntV 1)]))]) [''a'', ''b''] = NilV"
  by (simp add: Set_def index_def entries_def)

section \<open>Two writes under a shared prefix\<close>

text \<open>
  Claim C3 says that after \<open>Set(1, a.b.c)\<close> and \<open>Set(2, a.b.d)\<close> on any Config,
  \<open>GetPath(a.b.c)\<close> returns \<open>1\<close>. The code at the Config \<^verbatim>\<open>{"a": Config{}}\<close>: both calls
  descend into the value under \<open>a\<close>, the second keeps the sibling \<open>c\<close>, and \<open>GetPath\<close>
  stops at \<open>a\<close> and returns nil.
\<close>

theorem sibling_under_Config_not_read_back:
  "Set (Some [(''a'', ConfigV (Some []))]) (IntV 1) [''a'', ''b'', ''c''] =
     Inr (Some [(''a'', ConfigV (Some [(''b'', MapV (Some [(''c'', IntV 1)]))]))]) \<and>
   Set (Some [(''a'', ConfigV (Some [(''b'', MapV (Some [(''c'', IntV 1)]))]))])
       (IntV 2) [''a'', ''b'', ''d''] =
     Inr (Some [(''a'', ConfigV (Some [(''b'', MapV (Some [(''c'', IntV 1), (''d'', IntV 2)]))]))]) \<and>
   GetPath (Some [(''a'', ConfigV (Some [(''b'', MapV (Some [(''c'', IntV 1), (''d'', IntV 2)]))]))])
     [''a'', ''b'', ''c''] = NilV"
  by (simp add: Set_def index_def entries_def)

section \<open>The validator\<close>

lemma pending_snoc:
  "length ns = length ps \<Longrightarrow> pending (ns @ [n]) (ps @ [p]) = pending ns ps @ required_at p n"
  by (simp add: pending_def)

lemma pending_append:
  "length ns = length ps \<Longrightarrow>
   pending (ns @ ns') (ps @ ps') = pending ns ps @ pending ns' ps'"
  by (simp add: pending_def)

lemma pending_children:
  "pending (map snd es) (map (\<lambda>(k, n). path @ ''.'' @ k) es) =
   concat (map (\<lambda>(k, n). required_at (path @ ''.'' @ k) n) es)"
  by (induction es) (auto simp: pending_def)

lemma pending_entries:
  "pending (map snd es) (map fst es) = concat (map (\<lambda>(k, n). required_at k n) es)"
  by (induction es) (auto simp: pending_def)

lemma Validate_loop_pending:
  "length nodes = length paths \<Longrightarrow>
   \<exists>errs'. Validate_loop nodes paths errs = Inr errs' \<and>
     mset errs' = mset errs + mset (map RequiredError (pending nodes paths))"
proof (induction nodes paths errs rule: Validate_loop.induct)
  case (1 nodes paths errs)
  show ?case
  proof (cases "nodes = []")
    case True
    with "1.prems" show ?thesis by (simp add: pending_def Validate_loop.simps)
  next
    case False
    with "1.prems" have pne: "paths \<noteq> []" by auto
    define node where node: "node = last nodes"
    define path where path: "path = last paths"
    define ns where ns: "ns = butlast nodes"
    define ps where ps: "ps = butlast paths"
    have nodes: "nodes = ns @ [node]" and paths: "paths = ps @ [path]"
      using False pne by (simp_all add: node path ns ps)
    have len: "length ns = length ps"
      using "1.prems" by (simp add: nodes paths)
    have top: "pending nodes paths = pending ns ps @ required_at path node"
      unfolding nodes paths by (rule pending_snoc [OF len])
    note IH = "1.IH" [OF False pne node path ns ps]
    have unfold: "Validate_loop nodes paths errs =
      (case node of
         MapV inner \<Rightarrow>
           Validate_loop (ns @ map snd (entries inner))
                         (ps @ map (\<lambda>(k, n). path @ ''.'' @ k) (entries inner)) errs
       | StringV inner \<Rightarrow>
           Validate_loop ns ps (if inner = REQUIRED then errs @ [RequiredError path] else errs)
       | _ \<Rightarrow> Validate_loop ns ps errs)"
      unfolding node path ns ps
      using False pne by (subst Validate_loop.simps) (simp add: Let_def)
    show ?thesis
    proof (cases node)
      case (MapV inner)
      let ?ns' = "ns @ map snd (entries inner)"
      let ?ps' = "ps @ map (\<lambda>(k, n). path @ ''.'' @ k) (entries inner)"
      have "length ?ns' = length ?ps'"
        using len by simp
      from IH(8) [OF MapV this]
      obtain errs' where run: "Validate_loop ?ns' ?ps' errs = Inr errs'"
        and res: "mset errs' = mset errs + mset (map RequiredError (pending ?ns' ?ps'))"
        by blast
      have "pending ?ns' ?ps' = pending ns ps @ required_at path (MapV inner)"
        by (simp only: pending_append [OF len] pending_children required_at.simps)
      with res top MapV
      have "mset errs' = mset errs + mset (map RequiredError (pending nodes paths))"
        by simp
      moreover have "Validate_loop nodes paths errs = Inr errs'"
        unfolding unfold MapV using run by simp
      ultimately show ?thesis by blast
    next
      case (StringV s)
      let ?errs = "if s = REQUIRED then errs @ [RequiredError path] else errs"
      from IH(2) [OF StringV len]
      obtain errs' where run: "Validate_loop ns ps ?errs = Inr errs'"
        and res: "mset errs' = mset ?errs + mset (map RequiredError (pending ns ps))"
        by blast
      from res top StringV
      have "mset errs' = mset errs + mset (map RequiredError (pending nodes paths))"
        by simp
      moreover have "Validate_loop nodes paths errs = Inr errs'"
        unfolding unfold StringV using run by simp
      ultimately show ?thesis by blast
    qed (use IH len top in \<open>simp_all add: unfold\<close>)
  qed
qed

text \<open>
  What \<open>Validate\<close> reports, for every Config: it returns, without panic, and its errors
  are one \<open>RequiredError\<close> for each path of \<open>sentinel_paths\<close>. The order of the errors
  follows the order in which the maps are ranged over, so the two sides are compared
  as multisets. No error is lost after the first one, and the other keys of a map
  change nothing.
\<close>

lemma Validate_reports_sentinel_paths:
  "\<exists>errs. Validate c = Inr errs \<and> mset errs = mset (map RequiredError (sentinel_paths c))"
  using Validate_loop_pending [of "map snd (entries c)" "map fst (entries c)" "[]"]
  by (simp add: Validate_def pending_entries sentinel_paths_def)

text \<open>A sequence is not descended into, whatever it holds.\<close>

lemma Validate_skips_sequence: "Validate (Some [(k, SliceV xs)]) = Inr []"
  by (simp add: Validate_def entries_def Validate_loop.simps [of "[SliceV xs]"]
      Validate_loop.simps [of "[]"])

text \<open>
  Sentinels at \<open>x.y\<close> and \<open>a.b.c\<close>, other keys beside them, and a sentinel inside the
  sequence under \<open>s\<close>.
\<close>

lemma Validate_two_sentinels:
  "Validate (Some
     [(''x'', MapV (Some [(''y'', StringV REQUIRED), (''z'', IntV 3)])),
      (''a'', MapV (Some [(''b'', MapV (Some [(''c'', StringV REQUIRED)])),
                          (''n'', StringV ''ok'')])),
      (''s'', SliceV [StringV REQUIRED])]) =
   Inr [RequiredError ''a.b.c'', RequiredError ''x.y'']"
  by (simp add: Validate_def entries_def REQUIRED_def Validate_loop.simps)

section \<open>The validator and nested Config values\<close>

text \<open>
  Claim C4 says that for every Config \<open>Validate\<close> returns one error for each string
  equal to the sentinel that is reached from the root through mappings only. The code
  at the Config built by \<open>Set(NewConfig(), a)\<close> and \<open>Set(REQUIRED, a, b)\<close>, which is
  \<^verbatim>\<open>{"a": Config{"b": "[REQUIRED]"}}\<close>: \<open>Set\<close> descends into the value under \<open>a\<close> as into a
  mapping, and \<open>Validate\<close> does not and returns no error. With a value of type
  \<^verbatim>\<open>map[string]interface{}\<close> under \<open>a\<close> the same sentinel is reported.
\<close>

theorem Validate_skips_nested_Config:
  "Set NewConfig (ConfigV NewConfig) [''a''] = Inr (Some [(''a'', ConfigV (Some []))]) \<and>
   Set (Some [(''a'', ConfigV (Some []))]) (StringV REQUIRED) [''a'', ''b''] =
     Inr (Some [(''a'', ConfigV (Some [(''b'', StringV REQUIRED)]))]) \<and>
   Validate (Some [(''a'', ConfigV (Some [(''b'', StringV REQUIRED)]))]) = Inr [] \<and>
   Validate (Some [(''a'', MapV (Some [(''b'', StringV REQUIRED)]))]) =
     Inr [RequiredError ''a.b'']"
  by (simp add: Set_def NewConfig_def index_def entries_def Validate_def Validate_loop.simps)

section \<open>Absence and conversion errors\<close>

text \<open>
  Claim C5: \<open>GetPath\<close> is a total function, so it never fails, and absence is its
  result nil. On every path where \<open>GetPath\<close> returns nil, each of the seven typed
  accessors returns its zero value and the error \<open>NotFoundError\<close> holding that path, not
  a conversion error.
\<close>

theorem absent_value_is_NotFound:
  assumes "GetPath c path = NilV"
  shows "GetString c path = ('''', Some (NotFoundError path)) \<and>
         GetBool c path = (False, Some (NotFoundError path)) \<and>
         GetInt c path = (0, Some (NotFoundError path)) \<and>
         GetFloat conv c path = (0, Some (NotFoundError path)) \<and>
         GetMap c path = (Some [], Some (NotFoundError path)) \<and>
         GetSlice c path = ([], Some (NotFoundError path)) \<and>
         GetStringSlice c path = ([], Some (NotFoundError path))"
  using assms
  by (simp add: GetString_absent GetBool_absent GetInt_absent GetFloat_absent GetMap_absent
      GetSlice_absent GetStringSlice_absent)

text \<open>C5 at a concrete input: the path \<open>a.b\<close> where \<open>a\<close> holds a scalar.\<close>

theorem absent_value_is_NotFound_witness:
  "GetPath (Some [(''a'', IntV 1)]) [''a'', ''b''] = NilV \<and>
   GetString (Some [(''a'', IntV 1)]) [''a'', ''b''] = ('''', Some (NotFoundError [''a'', ''b''])) \<and>
   GetInt (Some [(''a'', IntV 1)]) [''a'', ''b''] = (0, Some (NotFoundError [''a'', ''b''])) \<and>
   GetStringSlice (Some [(''a'', IntV 1)]) [''a'', ''b''] = ([], Some (NotFoundError [''a'', ''b'']))"
  using absent_value_is_NotFound [of "Some [(''a'', IntV 1)]" "[''a'', ''b'']"]
  by (simp add: index_def entries_def)

text \<open>
  Claim C6 as stated, a structured error that carries the path and the target kind,
  fails: the error is the result of \<^verbatim>\<open>errors.New\<close>, a message and nothing else. The two
  different paths \<open>[a.b]\<close> and \<open>[a, b]\<close> give the same error value from \<open>GetString\<close>, and
  the two accessors \<open>GetSlice\<close> and \<open>GetStringSlice\<close> give the same error value on the
  same path.
\<close>

theorem conversion_error_is_a_message:
  "GetString (Some [(''a.b'', IntV 1), (''a'', MapV (Some [(''b'', IntV 1)]))]) [''a.b''] =
     ('''', Some (ErrorString ''Error converting a.b to string'')) \<and>
   GetString (Some [(''a.b'', IntV 1), (''a'', MapV (Some [(''b'', IntV 1)]))]) [''a'', ''b''] =
     ('''', Some (ErrorString ''Error converting a.b to string'')) \<and>
   GetSlice (Some [(''a.b'', IntV 1), (''a'', MapV (Some [(''b'', IntV 1)]))]) [''a.b''] =
     ([], Some (ErrorString ''Error converting a.b to slice'')) \<and>
   GetStringSlice (Some [(''a.b'', IntV 1), (''a'', MapV (Some [(''b'', IntV 1)]))]) [''a.b''] =
     ([], Some (ErrorString ''Error converting a.b to slice''))"
  by (simp add: GetString_def GetSlice_def GetStringSlice_def index_def entries_def)

text \<open>
  Claim C6, amended: on every path where \<open>GetPath\<close> returns a value \<open>v\<close> other than nil
  whose dynamic type does not match the accessor, the accessor returns its zero value
  and the error \<^verbatim>\<open>errors.New("Error converting <path> to <kind>")\<close>, where \<^verbatim>\<open><path>\<close> is
  the segments joined by dots and \<^verbatim>\<open><kind>\<close> is \<open>map\<close>, \<open>string\<close>, \<open>slice\<close>, \<open>bool\<close>,
  \<open>int\<close> or \<open>float\<close>. \<open>GetStringSlice\<close> says \<open>slice\<close> when the value is not a generic
  sequence and \<open>string slice\<close> when an element of the sequence is not a string.
\<close>

theorem conversion_failure_message:
  assumes "GetPath c path = v" and "v \<noteq> NilV"
  shows "(\<not> is_MapV v \<longrightarrow> GetMap c path =
            (Some [], Some (ErrorString (''Error converting '' @ Join path ''.'' @ '' to map'')))) \<and>
         (\<not> is_StringV v \<longrightarrow> GetString c path =
            ('''', Some (ErrorString (''Error converting '' @ Join path ''.'' @ '' to string'')))) \<and>
         (\<not> is_SliceV v \<longrightarrow> GetSlice c path =
            ([], Some (ErrorString (''Error converting '' @ Join path ''.'' @ '' to slice'')))) \<and>
         (\<not> is_SliceV v \<longrightarrow> GetStringSlice c path =
            ([], Some (ErrorString (''Error converting '' @ Join path ''.'' @ '' to slice'')))) \<and>
         (\<forall>val. v = SliceV val \<and> \<not> list_all is_StringV val \<longrightarrow> GetStringSlice c path =
            ([], Some (ErrorString (''Error converting '' @ Join path ''.'' @ '' to string slice'')))) \<and>
         (\<not> is_BoolV v \<longrightarrow> GetBool c path =
            (False, Some (ErrorString (''Error converting '' @ Join path ''.'' @ '' to bool'')))) \<and>
         (\<not> is_IntV v \<and> \<not> is_Int64V v \<longrightarrow> GetInt c path =
            (0, Some (ErrorString (''Error converting '' @ Join path ''.'' @ '' to int'')))) \<and>
         (\<not> is_Float64V v \<and> \<not> is_IntV v \<and> \<not> is_Int64V v \<longrightarrow> GetFloat conv c path =
            (0, Some (ErrorString (''Error converting '' @ Join path ''.'' @ '' to float''))))"
  using assms
  by (cases v)
     (simp_all add: GetMap_def GetString_def GetSlice_def GetStringSlice_def GetBool_def
        GetInt_def GetFloat_def GetStringSlice_loop_eq)

text \<open>C6 at a concrete input: the integer \<open>1\<close> under \<open>a.b\<close>, read as a string and as a map.\<close>

theorem conversion_failure_message_witness:
  "GetPath (Some [(''a'', MapV (Some [(''b'', IntV 1)]))]) [''a'', ''b''] = IntV 1 \<and>
   IntV 1 \<noteq> NilV \<and> \<not> is_StringV (IntV 1) \<and> \<not> is_MapV (IntV 1) \<and>
   GetString (Some [(''a'', MapV (Some [(''b'', IntV 1)]))]) [''a'', ''b''] =
     ('''', Some (ErrorString ''Error converting a.b to string'')) \<and>
   GetMap (Some [(''a'', MapV (Some [(''b'', IntV 1)]))]) [''a'', ''b''] =
     (Some [], Some (ErrorString ''Error converting a.b to map''))"
  using conversion_failure_message [of "Some [(''a'', MapV (Some [(''b'', IntV 1)]))]"
      "[''a'', ''b'']" "IntV 1"]
  by (simp add: index_def entries_def)

section \<open>Numeric coercion\<close>

text \<open>
  Claim C7: \<open>GetInt\<close> returns without error exactly when the stored value is an
  \<^verbatim>\<open>int\<close> or an \<^verbatim>\<open>int64\<close>, and then returns that integer as an \<^verbatim>\<open>int64\<close>; on a
  stored \<^verbatim>\<open>float64\<close> it returns the conversion error. \<open>GetFloat\<close> returns without error
  exactly when the stored value is a \<^verbatim>\<open>float64\<close>, an \<^verbatim>\<open>int\<close> or an \<^verbatim>\<open>int64\<close>, and
  then returns the float itself or the integer converted to \<^verbatim>\<open>float64\<close>. On a stored
  string both return the conversion error.
\<close>

theorem numeric_coercion:
  "(snd (GetInt c path) = None) = (is_IntV (GetPath c path) \<or> is_Int64V (GetPath c path)) \<and>
   (GetPath c path = IntV i \<longrightarrow> (\<exists>r. GetInt c path = (r, None) \<and> sint r = sint i)) \<and>
   (GetPath c path = Int64V j \<longrightarrow> GetInt c path = (j, None)) \<and>
   (GetPath c path = Float64V x \<longrightarrow> GetInt c path =
      (0, Some (ErrorString (''Error converting '' @ Join path ''.'' @ '' to int'')))) \<and>
   (snd (GetFloat conv c path) = None) =
      (is_Float64V (GetPath c path) \<or> is_IntV (GetPath c path) \<or> is_Int64V (GetPath c path)) \<and>
   (GetPath c path = Float64V x \<longrightarrow> GetFloat conv c path = (x, None)) \<and>
   (GetPath c path = IntV i \<longrightarrow> GetFloat conv c path = (conv (sint i), None)) \<and>
   (GetPath c path = Int64V j \<longrightarrow> GetFloat conv c path = (conv (sint j), None)) \<and>
   (GetPath c path = StringV s \<longrightarrow>
      GetInt c path =
        (0, Some (ErrorString (''Error converting '' @ Join path ''.'' @ '' to int''))) \<and>
      GetFloat conv c path =
        (0, Some (ErrorString (''Error converting '' @ Join path ''.'' @ '' to float''))))"
  by (cases "GetPath c path") (simp_all add: GetInt_def GetFloat_def)

text \<open>
  C7 at a concrete input: the \<^verbatim>\<open>int\<close> 7 read by both accessors, with a conversion that
  maps 7 to the bit pattern of 7.0.
\<close>

theorem numeric_coercion_witness:
  "GetPath (Some [(''n'', IntV 7), (''s'', StringV ''7'')]) [''n''] = IntV 7 \<and>
   (\<exists>r. GetInt (Some [(''n'', IntV 7), (''s'', StringV ''7'')]) [''n''] = (r, None) \<and> sint r = 7) \<and>
   GetFloat (\<lambda>i. if i = 7 then 0x401C000000000000 else 0)
     (Some [(''n'', IntV 7), (''s'', StringV ''7'')]) [''n''] = (0x401C000000000000, None)"
  using numeric_coercion [where c = "Some [(''n'', IntV 7), (''s'', StringV ''7'')]"
      and path = "[''n'']" and i = 7 and j = 7 and x = 0 and s = "''7''"
      and conv = "\<lambda>i. if i = 7 then 0x401C000000000000 else 0"]
  by (simp add: index_def entries_def)

section \<open>String slices\<close>

text \<open>
  Claim C8: on every path that holds a generic sequence, \<open>GetStringSlice\<close> returns
  without error exactly when every element is a string, and then returns the strings
  of the elements in order; when some element is not a string it returns the empty
  slice and the conversion error, also when the elements before it are strings.
\<close>

theorem GetStringSlice_all_or_nothing:
  assumes "GetPath c path = SliceV val"
  shows "(snd (GetStringSlice c path) = None) = list_all is_StringV val \<and>
         (list_all is_StringV val \<longrightarrow>
            GetStringSlice c path = (map the_string val, None) \<and>
            map StringV (map the_string val) = val) \<and>
         (\<not> list_all is_StringV val \<longrightarrow>
            GetStringSlice c path =
              ([], Some (ErrorString (''Error converting '' @ Join path ''.'' @ '' to string slice''))))"
proof -
  have "map StringV (map the_string val) = val" if "list_all is_StringV val"
    using that by (induction val) auto
  with assms show ?thesis
    by (simp add: GetStringSlice_def GetStringSlice_loop_eq)
qed

text \<open>C8 at a concrete input: the sequence \<^verbatim>\<open>["a", "b", 3]\<close>.\<close>

theorem GetStringSlice_all_or_nothing_witness:
  "GetPath (Some [(''l'', SliceV [StringV ''a'', StringV ''b'', Int64V 3])]) [''l''] =
     SliceV [StringV ''a'', StringV ''b'', Int64V 3] \<and>
   \<not> list_all is_StringV [StringV ''a'', StringV ''b'', Int64V 3] \<and>
   GetStringSlice (Some [(''l'', SliceV [StringV ''a'', StringV ''b'', Int64V 3])]) [''l''] =
     ([], Some (ErrorString ''Error converting l to string slice''))"
  using GetStringSlice_all_or_nothing [of "Some [(''l'', SliceV [StringV ''a'', StringV ''b'', Int64V 3])]"
      "[''l'']" "[StringV ''a'', StringV ''b'', Int64V 3]"]
  by (simp add: index_def entries_def)

section \<open>The empty path\<close>

text \<open>
  Claim C9: for every Config, \<open>GetPath\<close> with no path segment returns nil, and \<open>Set\<close>
  with no path segment is the assignment of the value to the key \<^verbatim>\<open>""\<close> of the root
  map: it adds or replaces that entry of a map that is not nil, and panics on the nil
  map as every assignment does.
\<close>

theorem empty_path:
  "GetPath c [] = NilV \<and>
   Set c val [] = assign c '''' val \<and>
   Set (Some kvs) val [] = Inr (Some (AList.update '''' val kvs)) \<and>
   Set None val [] = Inl NilMapAssign"
  by (simp add: Set_def)

text \<open>C9 at a concrete input: the call changes the empty Config.\<close>

theorem empty_path_witness:
  "GetPath NewConfig [] = NilV \<and>
   Set NewConfig (StringV ''v'') [] = Inr (Some [('''', StringV ''v'')]) \<and>
   Set NewConfig (StringV ''v'') [] \<noteq> Inr NewConfig"
  using empty_path [of NewConfig "StringV ''v''" "[]"]
  by (simp add: NewConfig_def)

section \<open>A key that holds nil\<close>

text \<open>
  Claim C10: for every path, after \<open>Set(nil, path)\<close> has returned, which it does when
  its walk reaches no nil map, the key is in the tree with the value nil, \<open>GetPath\<close>
  on the path returns nil, and each of the seven typed accessors returns the error
  \<open>NotFoundError\<close> holding the path.
\<close>

theorem nil_value_reads_as_absent:
  assumes "\<not> nil_on_path c path"
  shows "\<exists>c'. Set c NilV path = Inr c' \<and>
           entry_at c' path = Some NilV \<and>
           GetPath c' path = NilV \<and>
           GetString c' path = ('''', Some (NotFoundError path)) \<and>
           GetBool c' path = (False, Some (NotFoundError path)) \<and>
           GetInt c' path = (0, Some (NotFoundError path)) \<and>
           GetFloat conv c' path = (0, Some (NotFoundError path)) \<and>
           GetMap c' path = (Some [], Some (NotFoundError path)) \<and>
           GetSlice c' path = ([], Some (NotFoundError path)) \<and>
           GetStringSlice c' path = ([], Some (NotFoundError path))"
proof -
  from Set_loop_returns [OF assms] obtain c' where run: "Set c NilV path = Inr c'"
    unfolding Set_def by blast
  then have "entry_at c' path = Some NilV"
    unfolding Set_def entry_at_def by (rule entry_Set_loop)
  moreover from run have "GetPath c' path = NilV"
    by (rule GetPath_Set_NilV)
  ultimately show ?thesis
    using run
    by (simp add: GetString_absent GetBool_absent GetInt_absent GetFloat_absent GetMap_absent
        GetSlice_absent GetStringSlice_absent)
qed

text \<open>C10 at a concrete input: nil written over the integer under \<open>a.b\<close>.\<close>

theorem nil_value_reads_as_absent_witness:
  "\<not> nil_on_path (Some [(''a'', MapV (Some [(''b'', IntV 1)]))]) [''a'', ''b''] \<and>
   Set (Some [(''a'', MapV (Some [(''b'', IntV 1)]))]) NilV [''a'', ''b''] =
     Inr (Some [(''a'', MapV (Some [(''b'', NilV)]))]) \<and>
   entry_at (Some [(''a'', MapV (Some [(''b'', NilV)]))]) [''a'', ''b''] = Some NilV \<and>
   GetPath (Some [(''a'', MapV (Some [(''b'', NilV)]))]) [''a'', ''b''] = NilV \<and>
   GetInt (Some [(''a'', MapV (Some [(''b'', NilV)]))]) [''a'', ''b''] =
     (0, Some (NotFoundError [''a'', ''b'']))"
  using nil_value_reads_as_absent [where c = "Some [(''a'', MapV (Some [(''b'', IntV 1)]))]"
      and path = "[''a'', ''b'']" and conv = "\<lambda>i. 0"]
  by (simp add: Set_def index_def entries_def)

end
